theory Spec2Isabelle
  imports Main "HOL-Library.Word"
begin

section \<open>The session factory of the UAF client: \<open>uafc::SessionFactory::invokeRequest\<close>\<close>

text \<open>
  The development embeds the two function templates that
  \<^verbatim>\<open>src/uaf/client/sessions/sessionfactory.h\<close> defines inline,
  \<^verbatim>\<open>invokeRequest\<close> (lines 215-326) and the two overloads of
  \<^verbatim>\<open>storeRequestHandleIfNeeded\<close> (lines 465-510). Everything else the header only
  declares: the functions \<^verbatim>\<open>invokeRequest\<close> calls on its collaborators are parameters
  of the model, gathered in a record, and range over a state \<open>'w\<close> that stands for the part
  of the factory and of its sessions that the header never touches directly.
  Logging is left out.
\<close>

subsection \<open>Status values\<close>

text \<open>
  Modelled from the spec: \<^verbatim>\<open>uaf::Status\<close> and \<^verbatim>\<open>uaf::statuscodes\<close> (declared in
  uaf/util, absent). The header uses the codes \<^verbatim>\<open>UnsupportedError\<close> and
  \<^verbatim>\<open>ConnectionError\<close> and the members \<^verbatim>\<open>isGood\<close>, \<^verbatim>\<open>isNotGood\<close> and
  \<^verbatim>\<open>setStatus\<close>; the spec speaks of good and non-good statuses and names the error
  kinds. \<open>ReleaseUnderflow\<close> is the spec's name for the error of releasing an idle session,
  \<open>OtherError\<close> stands for every code the header does not mention.
\<close>

datatype StatusCode =
    Good
  | Uncertain
  | UnsupportedError
  | ConnectionError
  | ReleaseUnderflow
  | OtherError nat

record Status =
  statusCode :: StatusCode
  description :: string

definition isGood :: "Status \<Rightarrow> bool" where
  "isGood s = (statusCode s = Good)"

definition isNotGood :: "Status \<Rightarrow> bool" where
  "isNotGood s = (\<not> isGood s)"

definition setStatus :: "StatusCode \<Rightarrow> string \<Rightarrow> Status" where
  "setStatus c msg = \<lparr>statusCode = c, description = msg\<rparr>"

subsection \<open>Handles, requests, results and services\<close>

text \<open>
  \<^verbatim>\<open>TransactionId\<close> is the \<^verbatim>\<open>OpcUa_UInt32\<close> of the completion callbacks (lines 422-447);
  a request handle is an opaque integer chosen by the caller.
\<close>

type_synonym TransactionId = "32 word"
type_synonym RequestHandle = nat
type_synonym Mask = "bool list"

record 'qt Request =
  requestHandle :: RequestHandle
  targets :: "'qt list"

record 'rt Result =
  targets :: "'rt list"

text \<open>
  A service is a compile-time tag. The two properties of it that the header reads are the
  constant \<^verbatim>\<open>_Service::asynchronous\<close> and the base class of \<^verbatim>\<open>_Service::Request\<close>,
  which selects the overload of \<^verbatim>\<open>storeRequestHandleIfNeeded\<close>.
\<close>

datatype RequestKind = BaseSessionRequest | BaseSubscriptionRequest

record Service =
  asynchronous :: bool
  requestKind :: RequestKind

subsection \<open>The factory state and the calls it makes\<close>

text \<open>
  The calls on collaborators are recorded, in order, in the ghost field \<open>calls\<close>; an
  invocation is identified by the key it has in \<^verbatim>\<open>factory.invocations\<close>, its server URI.
\<close>

datatype Call =
    Store TransactionId RequestHandle
  | SetTransactionId string TransactionId
  | AcquireSession string
  | InvokeService string
  | CopyToResult string
  | ReleaseSession string
  | Erase TransactionId

record 'w SessionFactory =
  transactionMap :: "TransactionId \<rightharpoonup> RequestHandle"
  rest :: 'w
  calls :: "Call list"

definition logCall :: "Call \<Rightarrow> 'w SessionFactory \<Rightarrow> 'w SessionFactory" where
  "logCall c f = f\<lparr>calls := calls f @ [c]\<rparr>"

text \<open>
  The collaborators. \<open>'inv\<close> is \<^verbatim>\<open>_Service::Invocation\<close>, \<open>'ses\<close> a
  \<^verbatim>\<open>uafc::Session*\<close>, \<open>'ss\<close> and \<open>'si\<close> the session settings and the session
  information. A function that the C++ lets change an argument returns the changed value;
  \<^verbatim>\<open>releaseSession\<close> is the call of line 309, with the default for
  \<^verbatim>\<open>allowGarbageCollection\<close>; \<open>defaultTarget\<close> is a value-initialised result target.
  None of them is given \<^verbatim>\<open>transactionMap_\<close>: the header is the only code that is
  modelled as reading or writing it, under \<^verbatim>\<open>transactionMapMutex_\<close>, and a call of
  \<^verbatim>\<open>invokeRequest\<close> is modelled running alone.
\<close>

record ('qt, 'rt, 'inv, 'ss, 'ses, 'si, 'w) Collaborators =
  getNewTransactionId :: "'w \<Rightarrow> TransactionId \<times> 'w"
  defaultTarget :: "'rt"
  create :: "'qt Request \<Rightarrow> 'rt Result \<Rightarrow> Mask \<Rightarrow> 'w
               \<Rightarrow> Status \<times> (string \<times> 'inv) list \<times> 'rt Result \<times> 'w"
  setTransactionId :: "TransactionId \<Rightarrow> 'inv \<Rightarrow> 'inv"
  sessionSettings :: "'inv \<Rightarrow> 'ss"
  acquireSession :: "string \<Rightarrow> 'ss \<Rightarrow> 'w \<Rightarrow> Status \<times> 'ses \<times> 'w"
  sessionInformation :: "'ses \<Rightarrow> 'w \<Rightarrow> 'si"
  setSessionInformation :: "'si \<Rightarrow> 'inv \<Rightarrow> 'inv"
  isConnected :: "'ses \<Rightarrow> 'w \<Rightarrow> bool"
  invokeService :: "'qt Request \<Rightarrow> 'inv \<Rightarrow> 'ses \<Rightarrow> 'w \<Rightarrow> Status \<times> 'inv \<times> 'w"
  copyToResult :: "'inv \<Rightarrow> 'rt Result \<Rightarrow> Status \<times> 'rt Result"
  releaseSession :: "'ses \<Rightarrow> 'w \<Rightarrow> Status \<times> 'w"

subsection \<open>\<^verbatim>\<open>storeRequestHandleIfNeeded\<close> (lines 465-510)\<close>

text \<open>
  The C++ returns \<^verbatim>\<open>bool stored\<close> and writes the output parameter
  \<^verbatim>\<open>transactionId\<close> only when it returns true; the caller's variable is uninitialised
  otherwise. The model returns \<open>Some\<close> of the id for true and \<open>None\<close> for false.
  The first equation is the overload for \<^verbatim>\<open>BaseSessionRequest\<close>, the second the
  overload for \<^verbatim>\<open>BaseSubscriptionRequest\<close>.
\<close>

definition storeRequestHandleIfNeeded ::
  "('qt, 'rt, 'inv, 'ss, 'ses, 'si, 'w) Collaborators \<Rightarrow> Service \<Rightarrow> 'qt Request
     \<Rightarrow> 'w SessionFactory \<Rightarrow> TransactionId option \<times> 'w SessionFactory" where
  "storeRequestHandleIfNeeded E S request f =
     (case requestKind S of
        BaseSessionRequest \<Rightarrow>
          (if asynchronous S then
             (case getNewTransactionId E (rest f) of
                (transactionId, w) \<Rightarrow>
                  (Some transactionId,
                   logCall (Store transactionId (requestHandle request))
                     (f\<lparr>transactionMap :=
                          (transactionMap f)(transactionId \<mapsto> requestHandle request),
                        rest := w\<rparr>)))
           else (None, f))
      | BaseSubscriptionRequest \<Rightarrow> (None, f))"

subsection \<open>\<^verbatim>\<open>invokeRequest\<close> (lines 215-326)\<close>

text \<open>
  \<^verbatim>\<open>std::vector::resize\<close>: the vector is cut to \<open>n\<close> elements, or filled up to
  \<open>n\<close> elements with value-initialised ones.
\<close>

definition resize :: "nat \<Rightarrow> 'a \<Rightarrow> 'a list \<Rightarrow> 'a list" where
  "resize n d xs = take n xs @ replicate (n - length xs) d"

text \<open>
  Lines 291-300: the service is invoked on a connected session; otherwise the status
  becomes \<^verbatim>\<open>ConnectionError\<close>.
\<close>

definition forwardToSession ::
  "('qt, 'rt, 'inv, 'ss, 'ses, 'si, 'w) Collaborators \<Rightarrow> 'qt Request \<Rightarrow> string \<Rightarrow> 'inv
     \<Rightarrow> 'ses \<Rightarrow> Status \<Rightarrow> 'w SessionFactory \<Rightarrow> Status \<times> 'inv \<times> 'w SessionFactory" where
  "forwardToSession E request uri invocation session ret f =
     (if isConnected E session (rest f) \<and> isGood ret then
        (case invokeService E request invocation session (rest f) of
           (ret', invocation', w) \<Rightarrow>
             (ret', invocation', logCall (InvokeService uri) (f\<lparr>rest := w\<rparr>)))
      else
        (setStatus ConnectionError ''No connected session to invoke the service'',
         invocation, f))"

text \<open>Lines 302-307: the data of the invocation is copied to the result.\<close>

definition copyAllData ::
  "('qt, 'rt, 'inv, 'ss, 'ses, 'si, 'w) Collaborators \<Rightarrow> Service \<Rightarrow> string \<Rightarrow> 'inv
     \<Rightarrow> Status \<Rightarrow> 'rt Result \<Rightarrow> 'w SessionFactory
     \<Rightarrow> Status \<times> 'rt Result \<times> 'w SessionFactory" where
  "copyAllData E S uri invocation ret result f =
     (if \<not> asynchronous S \<and> isGood ret then
        (case copyToResult E invocation result of
           (ret', result') \<Rightarrow> (ret', result', logCall (CopyToResult uri) f))
      else (ret, result, f))"

text \<open>
  Lines 268-312, the body of the loop for the entry \<open>(uri, invocation)\<close> of
  \<^verbatim>\<open>factory.invocations\<close>. \<^verbatim>\<open>handleStored\<close> is \<open>transactionId \<noteq> None\<close>.
  The status that \<^verbatim>\<open>releaseSession\<close> returns is dropped, as on line 309.
\<close>

definition processInvocation ::
  "('qt, 'rt, 'inv, 'ss, 'ses, 'si, 'w) Collaborators \<Rightarrow> Service \<Rightarrow> 'qt Request
     \<Rightarrow> TransactionId option \<Rightarrow> string \<Rightarrow> 'inv \<Rightarrow> 'rt Result \<Rightarrow> 'w SessionFactory
     \<Rightarrow> Status \<times> 'rt Result \<times> 'w SessionFactory" where
  "processInvocation E S request transactionId uri invocation result f =
     (case (case transactionId of
              Some t \<Rightarrow> (setTransactionId E t invocation, logCall (SetTransactionId uri t) f)
            | None \<Rightarrow> (invocation, f)) of
        (invocation1, f1) \<Rightarrow>
     (case acquireSession E uri (sessionSettings E invocation1) (rest f1) of
        (ret, session, w) \<Rightarrow>
     (let f2 = logCall (AcquireSession uri) (f1\<lparr>rest := w\<rparr>) in
      if isGood ret then
        (let invocation2 =
               setSessionInformation E (sessionInformation E session (rest f2)) invocation1
         in
         case forwardToSession E request uri invocation2 session ret f2 of
           (ret1, invocation3, f3) \<Rightarrow>
         (case copyAllData E S uri invocation3 ret1 result f3 of
           (ret2, result1, f4) \<Rightarrow>
         (case releaseSession E session (rest f4) of
           (released, w') \<Rightarrow>
             (ret2, result1, logCall (ReleaseSession uri) (f4\<lparr>rest := w'\<rparr>)))))
      else (ret, result, f2))))"

text \<open>
  Lines 263-313. \<^verbatim>\<open>factory.invocations\<close> is a \<^verbatim>\<open>std::map\<close> from server URI to
  invocation; the list holds its entries in the order the iterator visits them. The loop
  goes on while entries are left and \<^verbatim>\<open>ret.isGood()\<close>.
\<close>

fun invocationLoop ::
  "('qt, 'rt, 'inv, 'ss, 'ses, 'si, 'w) Collaborators \<Rightarrow> Service \<Rightarrow> 'qt Request
     \<Rightarrow> TransactionId option \<Rightarrow> (string \<times> 'inv) list \<Rightarrow> Status \<Rightarrow> 'rt Result
     \<Rightarrow> 'w SessionFactory \<Rightarrow> Status \<times> 'rt Result \<times> 'w SessionFactory" where
  "invocationLoop E S request transactionId [] ret result f = (ret, result, f)"
| "invocationLoop E S request transactionId ((uri, invocation) # its) ret result f =
     (if isGood ret then
        (case processInvocation E S request transactionId uri invocation result f of
           (ret', result', f') \<Rightarrow>
             invocationLoop E S request transactionId its ret' result' f')
      else (ret, result, f))"

text \<open>Lines 247-257: an asynchronous request must fit in a single invocation.\<close>

definition checkSingleSession :: "Service \<Rightarrow> (string \<times> 'inv) list \<Rightarrow> Status \<Rightarrow> Status" where
  "checkSingleSession S invocations ret =
     (if isGood ret \<and> asynchronous S then
        (if length invocations > 1 then
           setStatus UnsupportedError
             ''Asynchronous requests must be able to be assigned to a single session''
         else ret)
      else ret)"

text \<open>Lines 315-323: the stored handle is removed when the request failed.\<close>

definition removeHandle ::
  "TransactionId option \<Rightarrow> Status \<Rightarrow> 'w SessionFactory \<Rightarrow> 'w SessionFactory" where
  "removeHandle transactionId ret f =
     (case transactionId of
        Some t \<Rightarrow>
          (if isNotGood ret then
             logCall (Erase t) (f\<lparr>transactionMap := (transactionMap f)(t := None)\<rparr>)
           else f)
      | None \<Rightarrow> f)"

text \<open>
  The whole function. It returns the status, the result (an output parameter in the C++)
  and the factory after the call. The status declared on line 228 is assigned on line 243
  before it is read, and \<^verbatim>\<open>invocationIndex\<close> is only logged.
\<close>

definition invokeRequest ::
  "('qt, 'rt, 'inv, 'ss, 'ses, 'si, 'w) Collaborators \<Rightarrow> Service \<Rightarrow> 'qt Request \<Rightarrow> Mask
     \<Rightarrow> 'rt Result \<Rightarrow> 'w SessionFactory \<Rightarrow> Status \<times> 'rt Result \<times> 'w SessionFactory" where
  "invokeRequest E S request msk result f =
     (let result1 =
            result\<lparr>targets :=
              resize (length (Request.targets request)) (defaultTarget E)
                (Result.targets result)\<rparr>
      in
      case storeRequestHandleIfNeeded E S request f of
        (transactionId, f1) \<Rightarrow>
      (case create E request result1 msk (rest f1) of
        (ret, invocations, result2, w) \<Rightarrow>
      (case invocationLoop E S request transactionId invocations
              (checkSingleSession S invocations ret) result2 (f1\<lparr>rest := w\<rparr>) of
        (ret', result3, f2) \<Rightarrow>
          (ret', result3, removeHandle transactionId ret' f2))))"

subsection \<open>The invocations whose data is copied\<close>




subsection \<open>Reading the recorded calls\<close>

text \<open>The calls that were made between the factory states \<open>f\<close> and \<open>f'\<close>.\<close>

definition newCalls :: "'w SessionFactory \<Rightarrow> 'w SessionFactory \<Rightarrow> Call list" where
  "newCalls f f' = drop (length (calls f)) (calls f')"

text \<open>The invocation a call belongs to, if it belongs to one.\<close>

fun callUri :: "Call \<Rightarrow> string option" where
  "callUri (Store t h) = None"
| "callUri (SetTransactionId uri t) = Some uri"
| "callUri (AcquireSession uri) = Some uri"
| "callUri (InvokeService uri) = Some uri"
| "callUri (CopyToResult uri) = Some uri"
| "callUri (ReleaseSession uri) = Some uri"
| "callUri (Erase t) = None"

fun isStore :: "Call \<Rightarrow> bool" where
  "isStore (Store t h) = True"
| "isStore c = False"

fun isErase :: "Call \<Rightarrow> bool" where
  "isErase (Erase t) = True"
| "isErase c = False"

subsection \<open>Releasing a session\<close>

text \<open>
  Lines 335-340 of the header: the activity of a session is a \<^verbatim>\<open>uint32_t\<close>, kept in a
  map from the client connection id (the \<^verbatim>\<open>OpcUa_UInt32\<close> of line 410).
\<close>

type_synonym Activity = "32 word"
type_synonym ClientConnectionId = "32 word"

record 's SessionTable =
  sessionMap :: "ClientConnectionId \<rightharpoonup> 's"
  activityMap :: "ClientConnectionId \<rightharpoonup> Activity"

text \<open>
  The activity count of a session; a session without an entry has no outstanding borrow.
\<close>

definition activity :: "'s SessionTable \<Rightarrow> ClientConnectionId \<Rightarrow> Activity" where
  "activity T cid = (case activityMap T cid of None \<Rightarrow> 0 | Some a \<Rightarrow> a)"

text \<open>
  Modelled from the spec: the body of \<^verbatim>\<open>releaseSession\<close> (declared on line 394 of the
  header, defined in sessionfactory.cpp, absent). Section 4.2 of the spec: release
  "decrements the session's activity count. If the count reaches zero and allowCollect is
  true and the caller's policy permits destruction, the session is removed and its
  resources freed. Releasing a session whose count is already zero is a fatal programming
  error (surfaced, not silently ignored)"; section 3: "a release on a count already at zero
  is a programmer error and must be reported without underflow"; scenario S6: the second
  release "returns ReleaseUnderflow; session activity stays at 0". The header's comment on
  the declaration says the same of the returned status. \<open>permitted\<close> is the caller's policy.
\<close>

definition releaseSessionSpec ::
  "ClientConnectionId \<Rightarrow> bool \<Rightarrow> bool \<Rightarrow> 's SessionTable \<Rightarrow> Status \<times> 's SessionTable" where
  "releaseSessionSpec cid allowGarbageCollection permitted T =
     (if activity T cid = 0 then
        (setStatus ReleaseUnderflow ''The session is already fully released'', T)
      else
        (let a = activity T cid - 1;
             T1 = T\<lparr>activityMap := (activityMap T)(cid \<mapsto> a)\<rparr>
         in (setStatus Good [],
             if a = 0 \<and> allowGarbageCollection \<and> permitted
             then T1\<lparr>sessionMap := (sessionMap T1)(cid := None)\<rparr>
             else T1)))"

subsection \<open>Collaborators to run the model on\<close>

text \<open>
  A small instance of the collaborators, for running \<open>invokeRequest\<close> on concrete
  requests. The factory's \<^verbatim>\<open>create\<close> returns the status \<open>st\<close> and the invocations
  \<open>invs\<close>, each one the list of the indices of its targets; a session is named by its
  server URI and is connected when the URI is in \<open>up\<close>; transaction ids are counted up;
  \<^verbatim>\<open>copyToResult\<close> marks the targets of the invocation in the result.
\<close>

definition good :: Status where
  "good = setStatus Good []"

definition scenario ::
  "Status \<Rightarrow> (string \<times> nat list) list \<Rightarrow> string list
     \<Rightarrow> (unit, bool, nat list, unit, string, unit, nat) Collaborators" where
  "scenario st invs up =
     \<lparr>getNewTransactionId = (\<lambda>w. (of_nat w, Suc w)),
      defaultTarget = False,
      create = (\<lambda>request result msk w. (st, invs, result, w)),
      setTransactionId = (\<lambda>t invocation. invocation),
      sessionSettings = (\<lambda>invocation. ()),
      acquireSession = (\<lambda>uri settings w. (good, uri, w)),
      sessionInformation = (\<lambda>session w. ()),
      setSessionInformation = (\<lambda>info invocation. invocation),
      isConnected = (\<lambda>session w. session \<in> set up),
      invokeService = (\<lambda>request invocation session w. (good, invocation, w)),
      copyToResult = (\<lambda>invocation result.
        (good, result\<lparr>targets := fold (\<lambda>i ts. ts[i := True]) invocation (targets result)\<rparr>)),
      releaseSession = (\<lambda>session w. (good, w))\<rparr>"

definition asyncSessionService :: Service where
  "asyncSessionService = \<lparr>asynchronous = True, requestKind = BaseSessionRequest\<rparr>"

definition syncSessionService :: Service where
  "syncSessionService = \<lparr>asynchronous = False, requestKind = BaseSessionRequest\<rparr>"

definition asyncSubscriptionService :: Service where
  "asyncSubscriptionService = \<lparr>asynchronous = True, requestKind = BaseSubscriptionRequest\<rparr>"

definition emptyFactory :: "nat SessionFactory" where
  "emptyFactory = \<lparr>transactionMap = Map.empty, rest = 7, calls = []\<rparr>"

section \<open>Properties\<close>

subsection \<open>The recorded calls and the steps of the loop\<close>

lemma newCalls_append: "calls f' = calls f @ cs \<Longrightarrow> newCalls f f' = cs"
  by (simp add: newCalls_def)


lemma callUri_not_store: "callUri c \<noteq> None \<Longrightarrow> \<not> isStore c \<and> \<not> isErase c"
  by (cases c) auto

lemma filter_none: "\<forall>c\<in>set cs. \<not> P c \<Longrightarrow> filter P cs = []"
  by (induction cs) auto

lemma length_resize: "length (resize n d xs) = n"
  by (simp add: resize_def)

text \<open>One run of the loop body: what it leaves alone and which calls it makes.\<close>

lemma processInvocation_transactionMap:
  "processInvocation E S rq t uri iv res f = (ret, res', f') \<Longrightarrow> transactionMap f' = transactionMap f"
  by (auto simp: processInvocation_def forwardToSession_def copyAllData_def logCall_def Let_def
      split: prod.splits option.splits if_splits)

lemma processInvocation_calls:
  "processInvocation E S rq t uri iv res f = (ret, res', f') \<Longrightarrow>
     \<exists>cs. calls f' = calls f @ cs \<and> (\<forall>c\<in>set cs. callUri c = Some uri)"
  by (auto simp: processInvocation_def forwardToSession_def copyAllData_def logCall_def Let_def
      split: prod.splits option.splits if_splits)



lemma processInvocation_length:
  assumes "\<forall>i rs. length (Result.targets (snd (copyToResult E i rs))) = length (Result.targets rs)"
    and "processInvocation E S rq t uri iv res f = (ret, res', f')"
  shows "length (Result.targets res') = length (Result.targets res)"
proof -
  have "\<And>i r ret f. length (Result.targets (fst (snd (copyAllData E S uri i ret r f))))
      = length (Result.targets r)"
    using assms(1) by (simp add: copyAllData_def split: prod.splits) (metis snd_conv)
  then show ?thesis using assms(2)
    by (auto simp: processInvocation_def Let_def split: prod.splits option.splits if_splits)
       (metis fst_conv snd_conv)+
qed

text \<open>The loop: it stops at a status that is not good, and splits along the list.\<close>

lemma invocationLoop_notGood:
  "\<not> isGood ret \<Longrightarrow> invocationLoop E S rq t its ret res f = (ret, res, f)"
  by (cases its) auto

lemma invocationLoop_append:
  "invocationLoop E S rq t (xs @ ys) ret res f =
     (case invocationLoop E S rq t xs ret res f of
        (ret', res', f') \<Rightarrow> invocationLoop E S rq t ys ret' res' f')"
proof (induction xs arbitrary: ret res f)
  case Nil
  then show ?case by simp
next
  case (Cons a xs)
  obtain uri iv where a: "a = (uri, iv)" by (cases a)
  show ?case
    by (simp add: a Cons.IH invocationLoop_notGood split: prod.splits)
qed

lemma invocationLoop_transactionMap:
  "invocationLoop E S rq t its ret res f = (ret', res', f') \<Longrightarrow> transactionMap f' = transactionMap f"
proof (induction its arbitrary: ret res f)
  case Nil
  then show ?case by simp
next
  case (Cons a its)
  obtain uri iv where a: "a = (uri, iv)" by (cases a)
  show ?case
  proof (cases "isGood ret")
    case True
    obtain r1 rs1 f1 where p: "processInvocation E S rq t uri iv res f = (r1, rs1, f1)"
      by (cases "processInvocation E S rq t uri iv res f")
    with Cons.prems a True have "invocationLoop E S rq t its r1 rs1 f1 = (ret', res', f')" by simp
    then have "transactionMap f' = transactionMap f1" by (rule Cons.IH)
    with processInvocation_transactionMap[OF p] show ?thesis by simp
  next
    case False
    with Cons.prems a show ?thesis by simp
  qed
qed

lemma invocationLoop_calls:
  "invocationLoop E S rq t its ret res f = (ret', res', f') \<Longrightarrow>
     \<exists>cs. calls f' = calls f @ cs \<and> (\<forall>c\<in>set cs. \<exists>uri\<in>fst ` set its. callUri c = Some uri)"
proof (induction its arbitrary: ret res f)
  case Nil
  then show ?case by simp
next
  case (Cons a its)
  obtain uri iv where a: "a = (uri, iv)" by (cases a)
  show ?case
  proof (cases "isGood ret")
    case True
    obtain r1 rs1 f1 where p: "processInvocation E S rq t uri iv res f = (r1, rs1, f1)"
      by (cases "processInvocation E S rq t uri iv res f")
    with Cons.prems a True have "invocationLoop E S rq t its r1 rs1 f1 = (ret', res', f')" by simp
    then obtain cs2 where c2: "calls f' = calls f1 @ cs2"
        "\<forall>c\<in>set cs2. \<exists>uri\<in>fst ` set its. callUri c = Some uri"
      using Cons.IH by blast
    from processInvocation_calls[OF p] obtain cs1 where c1: "calls f1 = calls f @ cs1"
        "\<forall>c\<in>set cs1. callUri c = Some uri" by blast
    have "calls f' = calls f @ (cs1 @ cs2)" using c1 c2 by simp
    moreover have "\<forall>c\<in>set (cs1 @ cs2). \<exists>u\<in>fst ` set (a # its). callUri c = Some u"
      using c1(2) c2(2) a by auto
    ultimately show ?thesis by blast
  next
    case False
    with Cons.prems a show ?thesis by simp
  qed
qed




lemma invocationLoop_length:
  assumes "\<forall>i rs. length (Result.targets (snd (copyToResult E i rs))) = length (Result.targets rs)"
    and "invocationLoop E S rq t its ret0 res f = (ret, res', f')"
  shows "length (Result.targets res') = length (Result.targets res)"
  using assms(2)
proof (induction its arbitrary: ret0 res f)
  case Nil
  then show ?case by simp
next
  case (Cons a its)
  obtain uri iv where a: "a = (uri, iv)" by (cases a)
  show ?case
  proof (cases "isGood ret0")
    case True
    obtain r1 rs1 f1 where p: "processInvocation E S rq t uri iv res f = (r1, rs1, f1)"
      by (cases "processInvocation E S rq t uri iv res f")
    with Cons.prems a True have lp: "invocationLoop E S rq t its r1 rs1 f1 = (ret, res', f')"
      by simp
    from Cons.IH[OF lp] processInvocation_length[OF assms(1) p] show ?thesis by simp
  next
    case False
    with Cons.prems a show ?thesis by simp
  qed
qed



text \<open>The whole function, taken apart into its four steps.\<close>

lemma store_cases:
  "storeRequestHandleIfNeeded E S rq f =
     (if requestKind S = BaseSessionRequest \<and> asynchronous S then
        (Some (fst (getNewTransactionId E (rest f))),
         f\<lparr>transactionMap :=
             (transactionMap f)(fst (getNewTransactionId E (rest f)) \<mapsto> requestHandle rq),
           rest := snd (getNewTransactionId E (rest f)),
           calls := calls f @ [Store (fst (getNewTransactionId E (rest f))) (requestHandle rq)]\<rparr>)
      else (None, f))"
  by (simp add: storeRequestHandleIfNeeded_def logCall_def split: RequestKind.splits prod.splits)

lemma invokeRequest_anatomy:
  assumes "invokeRequest E S rq m res f = (ret, res', f')"
  obtains tid f1 r0 invs res2 w f2 where
    "storeRequestHandleIfNeeded E S rq f = (tid, f1)"
    "create E rq (res\<lparr>targets := resize (length (Request.targets rq)) (defaultTarget E)
        (Result.targets res)\<rparr>) m (rest f1) = (r0, invs, res2, w)"
    "invocationLoop E S rq tid invs (checkSingleSession S invs r0) res2 (f1\<lparr>rest := w\<rparr>)
       = (ret, res', f2)"
    "f' = removeHandle tid ret f2"
  using assms unfolding invokeRequest_def Let_def
  by (auto split: prod.splits)

lemma invokeRequest_transactionMap:
  assumes "invokeRequest E S rq m res f = (ret, res', f')"
    and "storeRequestHandleIfNeeded E S rq f = (tid, f1)"
  shows "transactionMap f' =
           (case tid of
              Some t \<Rightarrow> if isNotGood ret then (transactionMap f1)(t := None) else transactionMap f1
            | None \<Rightarrow> transactionMap f1)"
proof -
  from assms(1) obtain tid' f1' r0 invs res2 w f2 where
    st: "storeRequestHandleIfNeeded E S rq f = (tid', f1')" and
    lp: "invocationLoop E S rq tid' invs (checkSingleSession S invs r0) res2 (f1'\<lparr>rest := w\<rparr>)
       = (ret, res', f2)" and
    rm: "f' = removeHandle tid' ret f2"
    by (rule invokeRequest_anatomy)
  from st assms(2) have eq: "tid' = tid" "f1' = f1" by simp_all
  from invocationLoop_transactionMap[OF lp] have "transactionMap f2 = transactionMap f1"
    by (simp add: eq)
  then show ?thesis
    by (simp add: rm eq removeHandle_def logCall_def split: option.splits)
qed

lemma invokeRequest_calls:
  assumes "invokeRequest E S rq m res f = (ret, res', f')"
    and "storeRequestHandleIfNeeded E S rq f = (tid, f1)"
  shows "\<exists>cs. calls f' = calls f1 @ cs @
                  (case tid of Some t \<Rightarrow> if isNotGood ret then [Erase t] else [] | None \<Rightarrow> [])
              \<and> (\<forall>c\<in>set cs. callUri c \<noteq> None)"
proof -
  from assms(1) obtain tid' f1' r0 invs res2 w f2 where
    st: "storeRequestHandleIfNeeded E S rq f = (tid', f1')" and
    lp: "invocationLoop E S rq tid' invs (checkSingleSession S invs r0) res2 (f1'\<lparr>rest := w\<rparr>)
       = (ret, res', f2)" and
    rm: "f' = removeHandle tid' ret f2"
    by (rule invokeRequest_anatomy)
  from st assms(2) have eq: "tid' = tid" "f1' = f1" by simp_all
  from invocationLoop_calls[OF lp] obtain cs where
    cs: "calls f2 = calls f1 @ cs" "\<forall>c\<in>set cs. \<exists>uri\<in>fst ` set invs. callUri c = Some uri"
    by (auto simp: eq)
  have "calls f' = calls f1 @ cs @
          (case tid of Some t \<Rightarrow> if isNotGood ret then [Erase t] else [] | None \<Rightarrow> [])"
    by (simp add: rm eq removeHandle_def logCall_def cs(1) split: option.splits)
  moreover have "\<forall>c\<in>set cs. callUri c \<noteq> None" using cs(2) by auto
  ultimately show ?thesis by blast
qed

text \<open>The definitions that running the model on a concrete request unfolds.\<close>

lemmas run_defs =
  invokeRequest_def storeRequestHandleIfNeeded_def processInvocation_def forwardToSession_def
  copyAllData_def checkSingleSession_def removeHandle_def logCall_def newCalls_def resize_def
  scenario_def good_def setStatus_def isGood_def isNotGood_def
  asyncSessionService_def syncSessionService_def asyncSubscriptionService_def emptyFactory_def
  Let_def

subsection \<open>The claims\<close>

text \<open>
  Claim C1, as amended. For an asynchronous service with session-level requests, when
  \<^verbatim>\<open>factory.create\<close> returns a good status and more than one invocation,
  \<open>invokeRequest\<close> returns \<^verbatim>\<open>UnsupportedError\<close>; the only calls it makes are
  the storing and the erasing of the transaction id, so the body of the loop never runs and
  nothing is forwarded to a session; the state \<open>w\<close> and the result that
  \<^verbatim>\<open>create\<close> left are returned unchanged and the id is no longer in the transaction map.
  As stated, without the condition on the status of \<^verbatim>\<open>create\<close>, the claim fails:
  line 252 guards the check with \<^verbatim>\<open>ret.isGood()\<close>, and the counterexample below
  returns the status of \<^verbatim>\<open>create\<close>.
\<close>

theorem async_fan_out_is_unsupported:
  assumes "asynchronous S" and "requestKind S = BaseSessionRequest"
    and "getNewTransactionId E (rest f) = (t, w0)"
    and "create E request
           (result\<lparr>targets := resize (length (Request.targets request)) (defaultTarget E)
              (Result.targets result)\<rparr>) msk w0 = (ret0, invocations, result2, w)"
    and "isGood ret0"
    and "1 < length invocations"
    and "invokeRequest E S request msk result f = (ret, result', f')"
  shows "statusCode ret = UnsupportedError \<and>
         newCalls f f' = [Store t (requestHandle request), Erase t] \<and>
         rest f' = w \<and> result' = result2 \<and> transactionMap f' t = None"
proof -
  have st: "storeRequestHandleIfNeeded E S request f =
      (Some t, f\<lparr>transactionMap := (transactionMap f)(t \<mapsto> requestHandle request),
                 rest := w0, calls := calls f @ [Store t (requestHandle request)]\<rparr>)"
    using assms(1-3) by (simp add: store_cases)
  have chk: "checkSingleSession S invocations ret0 =
      setStatus UnsupportedError
        ''Asynchronous requests must be able to be assigned to a single session''"
    using assms(1,5,6) by (simp add: checkSingleSession_def)
  have bad: "\<not> isGood (checkSingleSession S invocations ret0)"
    by (simp add: chk isGood_def setStatus_def)
  let ?f1 = "f\<lparr>transactionMap := (transactionMap f)(t \<mapsto> requestHandle request),
                 rest := w0, calls := calls f @ [Store t (requestHandle request)]\<rparr>"
  from assms(7) obtain tid f1 r0 invs res2 w' f2 where
    st': "storeRequestHandleIfNeeded E S request f = (tid, f1)" and
    cr: "create E request
           (result\<lparr>targets := resize (length (Request.targets request)) (defaultTarget E)
              (Result.targets result)\<rparr>) msk (rest f1) = (r0, invs, res2, w')" and
    lp: "invocationLoop E S request tid invs (checkSingleSession S invs r0) res2
           (f1\<lparr>rest := w'\<rparr>) = (ret, result', f2)" and
    rm: "f' = removeHandle tid ret f2"
    by (rule invokeRequest_anatomy)
  from st st' have eq1: "tid = Some t" "f1 = ?f1" by simp_all
  from cr assms(4) have eq2: "r0 = ret0" "invs = invocations" "res2 = result2" "w' = w"
    by (simp_all add: eq1)
  from lp have r: "ret = checkSingleSession S invocations ret0" "result' = result2"
    "f2 = ?f1\<lparr>rest := w\<rparr>"
    by (simp_all add: eq1 eq2 invocationLoop_notGood[OF bad])
  from r(1) have "statusCode ret = UnsupportedError" by (simp add: chk setStatus_def)
  moreover from bad have "newCalls f f' = [Store t (requestHandle request), Erase t]"
    "rest f' = w" "transactionMap f' t = None"
    by (simp_all add: rm eq1 r removeHandle_def isNotGood_def logCall_def newCalls_def)
  ultimately show ?thesis using r(2) by simp
qed

text \<open>
  The claim as stated fails when \<^verbatim>\<open>create\<close> fails with two invocations built: the
  status of \<^verbatim>\<open>create\<close> is returned, not \<^verbatim>\<open>UnsupportedError\<close>.
\<close>

theorem async_fan_out_is_unsupported_counterexample:
  "asynchronous asyncSessionService \<and> requestKind asyncSessionService = BaseSessionRequest \<and>
   1 < length (fst (snd (create
         (scenario (setStatus (OtherError 1) []) [(''A'', [0]), (''B'', [1])] [''A'', ''B''])
         \<lparr>requestHandle = 42, targets = [(), ()]\<rparr> \<lparr>targets = [False, False]\<rparr> [True, True] 8))) \<and>
   statusCode (fst (invokeRequest
         (scenario (setStatus (OtherError 1) []) [(''A'', [0]), (''B'', [1])] [''A'', ''B''])
         asyncSessionService \<lparr>requestHandle = 42, targets = [(), ()]\<rparr> [True, True]
         \<lparr>targets = []\<rparr> emptyFactory)) \<noteq> UnsupportedError"
  by (simp add: run_defs)

theorem async_fan_out_is_unsupported_witness:
  "statusCode (fst (invokeRequest
         (scenario good [(''A'', [0]), (''B'', [1])] [''A'', ''B''])
         asyncSessionService \<lparr>requestHandle = 42, targets = [(), ()]\<rparr> [True, True]
         \<lparr>targets = []\<rparr> emptyFactory)) = UnsupportedError \<and>
   newCalls emptyFactory (snd (snd (invokeRequest
         (scenario good [(''A'', [0]), (''B'', [1])] [''A'', ''B''])
         asyncSessionService \<lparr>requestHandle = 42, targets = [(), ()]\<rparr> [True, True]
         \<lparr>targets = []\<rparr> emptyFactory))) = [Store 7 42, Erase 7]"
proof -
  let ?E = "scenario good [(''A'', [0]), (''B'', [1])] [''A'', ''B'']"
  let ?rq = "\<lparr>requestHandle = 42, targets = [(), ()]\<rparr> :: unit Request"
  let ?X = "invokeRequest ?E asyncSessionService ?rq [True, True] \<lparr>targets = []\<rparr> emptyFactory"
  have h1: "asynchronous asyncSessionService" by (simp add: asyncSessionService_def)
  have h2: "requestKind asyncSessionService = BaseSessionRequest"
    by (simp add: asyncSessionService_def)
  have h3: "getNewTransactionId ?E (rest emptyFactory) = (7, 8)"
    by (simp add: scenario_def emptyFactory_def)
  have h4: "create ?E ?rq
      ((\<lparr>targets = []\<rparr> :: bool Result)\<lparr>targets := resize (length (Request.targets ?rq))
         (defaultTarget ?E) (Result.targets (\<lparr>targets = []\<rparr> :: bool Result))\<rparr>) [True, True] 8
      = (good, [(''A'', [0]), (''B'', [1])], \<lparr>targets = [False, False]\<rparr>, 8)"
    by (simp add: scenario_def resize_def)
  have h5: "isGood good" by (simp add: good_def isGood_def setStatus_def)
  have h6: "1 < length [(''A'', [0::nat]), (''B'', [1])]" by simp
  have h7: "?X = (fst ?X, fst (snd ?X), snd (snd ?X))" by simp
  from async_fan_out_is_unsupported[OF h1 h2 h3 h4 h5 h6 h7] show ?thesis by simp
qed

text \<open>
  Claim C2. For an asynchronous service with session-level requests, the transaction id
  \<open>t\<close> that \<^verbatim>\<open>getNewTransactionId\<close> hands out is stored; when
  \<open>invokeRequest\<close> returns a status that is not good, the transaction map has no entry
  for \<open>t\<close> at return, and is otherwise as it was before the call.
\<close>

theorem failed_async_request_erases_binding:
  assumes "asynchronous S" and "requestKind S = BaseSessionRequest"
    and "getNewTransactionId E (rest f) = (t, w)"
    and "invokeRequest E S request msk result f = (ret, result', f')"
    and "isNotGood ret"
  shows "transactionMap f' t = None \<and> transactionMap f' = (transactionMap f)(t := None)"
proof -
  have st: "storeRequestHandleIfNeeded E S request f =
      (Some t, f\<lparr>transactionMap := (transactionMap f)(t \<mapsto> requestHandle request),
                 rest := w, calls := calls f @ [Store t (requestHandle request)]\<rparr>)"
    using assms(1-3) by (simp add: store_cases)
  from invokeRequest_transactionMap[OF assms(4) st] assms(5)
  show ?thesis by simp
qed

theorem failed_async_request_erases_binding_witness:
  "isNotGood (fst (invokeRequest (scenario good [(''A'', [0, 1, 2])] [])
         asyncSessionService \<lparr>requestHandle = 42, targets = [(), (), ()]\<rparr> [True, True, True]
         \<lparr>targets = []\<rparr> emptyFactory)) \<and>
   transactionMap (snd (snd (invokeRequest (scenario good [(''A'', [0, 1, 2])] [])
         asyncSessionService \<lparr>requestHandle = 42, targets = [(), (), ()]\<rparr> [True, True, True]
         \<lparr>targets = []\<rparr> emptyFactory))) 7 = None"
proof -
  let ?E = "scenario good [(''A'', [0, 1, 2])] []"
  let ?rq = "\<lparr>requestHandle = 42, targets = [(), (), ()]\<rparr> :: unit Request"
  let ?X = "invokeRequest ?E asyncSessionService ?rq [True, True, True] \<lparr>targets = []\<rparr>
              emptyFactory"
  have h1: "asynchronous asyncSessionService" by (simp add: asyncSessionService_def)
  have h2: "requestKind asyncSessionService = BaseSessionRequest"
    by (simp add: asyncSessionService_def)
  have h3: "getNewTransactionId ?E (rest emptyFactory) = (7, 8)"
    by (simp add: scenario_def emptyFactory_def)
  have h4: "?X = (fst ?X, fst (snd ?X), snd (snd ?X))" by simp
  have h5: "isNotGood (fst ?X)" by (simp add: run_defs)
  from failed_async_request_erases_binding[OF h1 h2 h3 h4 h5] h5 show ?thesis by simp
qed

text \<open>
  Claim C3. A call of \<open>invokeRequest\<close> stores a transaction id exactly when the request
  is a session-level request of an asynchronous service: then it makes one
  \<open>Store\<close> call, of the id \<open>t\<close> that \<^verbatim>\<open>getNewTransactionId\<close> returns, bound to
  \<^verbatim>\<open>request.requestHandle()\<close>; otherwise it makes none and
  \<open>storeRequestHandleIfNeeded\<close> returns the factory untouched. For a subscription-level
  request the transaction map after the whole call is the one before it, whether the
  service is asynchronous or not.
\<close>

theorem handle_stored_iff_async_session_request:
  assumes "getNewTransactionId E (rest f) = (t, w)"
    and "invokeRequest E S request msk result f = (ret, result', f')"
  shows "filter isStore (newCalls f f') =
           (if requestKind S = BaseSessionRequest \<and> asynchronous S
            then [Store t (requestHandle request)] else []) \<and>
         storeRequestHandleIfNeeded E S request f =
           (if requestKind S = BaseSessionRequest \<and> asynchronous S
            then (Some t, f\<lparr>transactionMap := (transactionMap f)(t \<mapsto> requestHandle request),
                            rest := w,
                            calls := calls f @ [Store t (requestHandle request)]\<rparr>)
            else (None, f)) \<and>
         (requestKind S = BaseSubscriptionRequest \<longrightarrow> transactionMap f' = transactionMap f)"
proof -
  let ?st = "if requestKind S = BaseSessionRequest \<and> asynchronous S
            then (Some t, f\<lparr>transactionMap := (transactionMap f)(t \<mapsto> requestHandle request),
                            rest := w,
                            calls := calls f @ [Store t (requestHandle request)]\<rparr>)
            else (None, f)"
  have st: "storeRequestHandleIfNeeded E S request f = ?st"
    using assms(1) by (simp add: store_cases)
  obtain tid f1 where tf: "?st = (tid, f1)" by (cases ?st)
  with st have st': "storeRequestHandleIfNeeded E S request f = (tid, f1)" by simp
  from invokeRequest_calls[OF assms(2) st'] obtain cs where
    cs: "calls f' = calls f1 @ cs @
           (case tid of Some t \<Rightarrow> if isNotGood ret then [Erase t] else [] | None \<Rightarrow> [])"
        "\<forall>c\<in>set cs. callUri c \<noteq> None" by auto
  have fs: "filter isStore cs = []"
    using cs(2) callUri_not_store by (auto intro!: filter_none)
  have a: "filter isStore (newCalls f f') =
           (if requestKind S = BaseSessionRequest \<and> asynchronous S
            then [Store t (requestHandle request)] else [])"
    using tf cs(1) fs by (auto simp: newCalls_def split: if_splits)
  have b: "requestKind S = BaseSubscriptionRequest \<longrightarrow> transactionMap f' = transactionMap f"
    using invokeRequest_transactionMap[OF assms(2) st'] tf by (auto split: if_splits)
  from a st b show ?thesis by blast
qed

theorem handle_stored_iff_async_session_request_witness:
  "filter isStore (newCalls emptyFactory (snd (snd (invokeRequest
         (scenario good [(''A'', [0, 1, 2])] [''A''])
         asyncSessionService \<lparr>requestHandle = 42, targets = [(), (), ()]\<rparr> [True, True, True]
         \<lparr>targets = []\<rparr> emptyFactory)))) = [Store 7 42] \<and>
   filter isStore (newCalls emptyFactory (snd (snd (invokeRequest
         (scenario good [(''A'', [0, 1, 2])] [''A''])
         asyncSubscriptionService \<lparr>requestHandle = 42, targets = [(), (), ()]\<rparr> [True, True, True]
         \<lparr>targets = []\<rparr> emptyFactory)))) = [] \<and>
   transactionMap (snd (snd (invokeRequest
         (scenario good [(''A'', [0, 1, 2])] [''A''])
         asyncSubscriptionService \<lparr>requestHandle = 42, targets = [(), (), ()]\<rparr> [True, True, True]
         \<lparr>targets = []\<rparr> emptyFactory))) = transactionMap emptyFactory"
proof -
  let ?E = "scenario good [(''A'', [0, 1, 2])] [''A'']"
  let ?rq = "\<lparr>requestHandle = 42, targets = [(), (), ()]\<rparr> :: unit Request"
  let ?X = "invokeRequest ?E asyncSessionService ?rq [True, True, True] \<lparr>targets = []\<rparr>
              emptyFactory"
  let ?Y = "invokeRequest ?E asyncSubscriptionService ?rq [True, True, True] \<lparr>targets = []\<rparr>
              emptyFactory"
  have h1: "getNewTransactionId ?E (rest emptyFactory) = (7, 8)"
    by (simp add: scenario_def emptyFactory_def)
  have h2: "?X = (fst ?X, fst (snd ?X), snd (snd ?X))" by simp
  have h3: "?Y = (fst ?Y, fst (snd ?Y), snd (snd ?Y))" by simp
  have k1: "requestKind asyncSessionService = BaseSessionRequest \<and> asynchronous asyncSessionService"
    by (simp add: asyncSessionService_def)
  have k2: "requestKind asyncSubscriptionService = BaseSubscriptionRequest"
    by (simp add: asyncSubscriptionService_def)
  from handle_stored_iff_async_session_request[OF h1 h2] handle_stored_iff_async_session_request[OF h1 h3] k1 k2 show ?thesis by simp
qed

text \<open>
  Claim C4. When the loop, run on the invocations \<open>xs\<close>, ends with a status that is not
  good, then run on \<open>xs\<close> followed by any further invocations \<open>ys\<close> it ends with the
  same status, result and factory state: nothing is done for \<open>ys\<close>. Every call the loop
  made (setting the transaction id, acquiring, invoking, copying, releasing) belongs to an
  invocation of \<open>xs\<close>.
\<close>

theorem first_failure_ends_iteration:
  assumes "invocationLoop E S request t xs ret0 result f = (ret, result', f')"
    and "\<not> isGood ret"
  shows "invocationLoop E S request t (xs @ ys) ret0 result f = (ret, result', f') \<and>
         (\<forall>c\<in>set (newCalls f f'). \<exists>uri\<in>fst ` set xs. callUri c = Some uri)"
proof -
  have "invocationLoop E S request t (xs @ ys) ret0 result f = (ret, result', f')"
    by (simp add: invocationLoop_append assms(1) invocationLoop_notGood[OF assms(2)])
  moreover from invocationLoop_calls[OF assms(1)] obtain cs where
    "calls f' = calls f @ cs" "\<forall>c\<in>set cs. \<exists>uri\<in>fst ` set xs. callUri c = Some uri" by blast
  then have "\<forall>c\<in>set (newCalls f f'). \<exists>uri\<in>fst ` set xs. callUri c = Some uri"
    by (simp add: newCalls_def)
  ultimately show ?thesis by simp
qed

theorem first_failure_ends_iteration_witness:
  "\<not> isGood (fst (invocationLoop (scenario good [(''A'', [0]), (''B'', [1])] [''B''])
        syncSessionService \<lparr>requestHandle = 42, targets = [(), ()]\<rparr> None [(''A'', [0])] good
        \<lparr>targets = [False, False]\<rparr> emptyFactory)) \<and>
   invocationLoop (scenario good [(''A'', [0]), (''B'', [1])] [''B''])
        syncSessionService \<lparr>requestHandle = 42, targets = [(), ()]\<rparr> None
        ([(''A'', [0])] @ [(''B'', [1])]) good \<lparr>targets = [False, False]\<rparr> emptyFactory =
   invocationLoop (scenario good [(''A'', [0]), (''B'', [1])] [''B''])
        syncSessionService \<lparr>requestHandle = 42, targets = [(), ()]\<rparr> None [(''A'', [0])] good
        \<lparr>targets = [False, False]\<rparr> emptyFactory"
proof -
  let ?E = "scenario good [(''A'', [0]), (''B'', [1])] [''B'']"
  let ?rq = "\<lparr>requestHandle = 42, targets = [(), ()]\<rparr> :: unit Request"
  let ?X = "invocationLoop ?E syncSessionService ?rq None [(''A'', [0])] good
              \<lparr>targets = [False, False]\<rparr> emptyFactory"
  have h1: "?X = (fst ?X, fst (snd ?X), snd (snd ?X))" by simp
  have h2: "\<not> isGood (fst ?X)" by (simp add: run_defs)
  from first_failure_ends_iteration[OF h1 h2, of "[(''B'', [1])]"] h2 show ?thesis by simp
qed

text \<open>
  Claim C5, on \<open>releaseSessionSpec\<close>. The activity count, an unsigned 32-bit number, is
  never negative. Releasing a session whose count is zero returns the status
  \<open>ReleaseUnderflow\<close>, which is not good, and leaves the table as it was, so the count
  does not wrap; releasing a session whose count is not zero returns a good status and
  lowers the count by exactly one; the count of every other session is unchanged.
\<close>

theorem release_of_idle_session_is_reported:
  assumes "releaseSessionSpec cid gc permitted T = (st, T')"
  shows "0 \<le> uint (activity T' c) \<and>
         (activity T cid = 0 \<longrightarrow> statusCode st = ReleaseUnderflow \<and> isNotGood st \<and> T' = T) \<and>
         (activity T cid \<noteq> 0 \<longrightarrow>
            isGood st \<and> unat (activity T' cid) + 1 = unat (activity T cid)) \<and>
         (c \<noteq> cid \<longrightarrow> activity T' c = activity T c)"
proof -
  have z: "activity T cid = 0 \<longrightarrow> statusCode st = ReleaseUnderflow \<and> isNotGood st \<and> T' = T"
    using assms by (auto simp: releaseSessionSpec_def setStatus_def isNotGood_def isGood_def)
  have p: "activity T cid \<noteq> 0 \<longrightarrow>
            isGood st \<and> unat (activity T' cid) + 1 = unat (activity T cid)"
  proof
    assume nz: "activity T cid \<noteq> 0"
    then have "unat (activity T cid) \<noteq> 0" by (simp add: unat_eq_zero)
    with nz have "unat (activity T cid - 1) + 1 = unat (activity T cid)"
      by (simp add: unat_minus_one)
    moreover from assms nz have "isGood st" "activity T' cid = activity T cid - 1"
      by (auto simp: releaseSessionSpec_def Let_def setStatus_def isGood_def activity_def
          split: if_splits)
    ultimately show "isGood st \<and> unat (activity T' cid) + 1 = unat (activity T cid)" by simp
  qed
  have o: "c \<noteq> cid \<longrightarrow> activity T' c = activity T c"
    using assms
    by (auto simp: releaseSessionSpec_def Let_def activity_def split: if_splits)
  from z p o show ?thesis by simp
qed

theorem release_of_idle_session_is_reported_witness:
  "isGood (fst (releaseSessionSpec 3 False True
       \<lparr>sessionMap = [3 \<mapsto> ''s''], activityMap = [3 \<mapsto> 1]\<rparr>)) \<and>
   statusCode (fst (releaseSessionSpec 3 False True
       (snd (releaseSessionSpec 3 False True
          \<lparr>sessionMap = [3 \<mapsto> ''s''], activityMap = [3 \<mapsto> 1]\<rparr>)))) = ReleaseUnderflow \<and>
   activity (snd (releaseSessionSpec 3 False True
       (snd (releaseSessionSpec 3 False True
          \<lparr>sessionMap = [3 \<mapsto> ''s''], activityMap = [3 \<mapsto> 1]\<rparr>)))) 3 = 0"
proof -
  let ?T = "\<lparr>sessionMap = [3 \<mapsto> ''s''], activityMap = [3 \<mapsto> 1]\<rparr> :: string SessionTable"
  let ?R1 = "releaseSessionSpec 3 False True ?T"
  let ?R2 = "releaseSessionSpec 3 False True (snd ?R1)"
  have h1: "?R1 = (fst ?R1, snd ?R1)" by simp
  have h2: "?R2 = (fst ?R2, snd ?R2)" by simp
  have a1: "activity ?T 3 \<noteq> 0" by (simp add: activity_def)
  have a2: "activity (snd ?R1) 3 = 0"
    by (simp add: releaseSessionSpec_def activity_def Let_def)
  from release_of_idle_session_is_reported[OF h1, of 3] release_of_idle_session_is_reported[OF h2, of 3] a1 a2 show ?thesis by simp
qed





text \<open>
  Claim C8. For an asynchronous service with session-level requests, when
  \<open>invokeRequest\<close> returns a good status the transaction map at return maps the
  transaction id \<open>t\<close> handed out by \<^verbatim>\<open>getNewTransactionId\<close> to
  \<^verbatim>\<open>request.requestHandle()\<close>, and is otherwise as it was before the call.
\<close>

theorem good_async_request_keeps_binding:
  assumes "asynchronous S" and "requestKind S = BaseSessionRequest"
    and "getNewTransactionId E (rest f) = (t, w)"
    and "invokeRequest E S request msk result f = (ret, result', f')"
    and "isGood ret"
  shows "transactionMap f' t = Some (requestHandle request) \<and>
         transactionMap f' = (transactionMap f)(t \<mapsto> requestHandle request)"
proof -
  have st: "storeRequestHandleIfNeeded E S request f =
      (Some t, f\<lparr>transactionMap := (transactionMap f)(t \<mapsto> requestHandle request),
                 rest := w, calls := calls f @ [Store t (requestHandle request)]\<rparr>)"
    using assms(1-3) by (simp add: store_cases)
  from invokeRequest_transactionMap[OF assms(4) st] assms(5)
  show ?thesis by (simp add: isNotGood_def)
qed

theorem good_async_request_keeps_binding_witness:
  "isGood (fst (invokeRequest (scenario good [(''A'', [0, 1, 2])] [''A''])
         asyncSessionService \<lparr>requestHandle = 42, targets = [(), (), ()]\<rparr> [True, True, True]
         \<lparr>targets = []\<rparr> emptyFactory)) \<and>
   transactionMap (snd (snd (invokeRequest (scenario good [(''A'', [0, 1, 2])] [''A''])
         asyncSessionService \<lparr>requestHandle = 42, targets = [(), (), ()]\<rparr> [True, True, True]
         \<lparr>targets = []\<rparr> emptyFactory))) 7 = Some 42"
proof -
  let ?E = "scenario good [(''A'', [0, 1, 2])] [''A'']"
  let ?rq = "\<lparr>requestHandle = 42, targets = [(), (), ()]\<rparr> :: unit Request"
  let ?X = "invokeRequest ?E asyncSessionService ?rq [True, True, True] \<lparr>targets = []\<rparr>
              emptyFactory"
  have h1: "asynchronous asyncSessionService" by (simp add: asyncSessionService_def)
  have h2: "requestKind asyncSessionService = BaseSessionRequest"
    by (simp add: asyncSessionService_def)
  have h3: "getNewTransactionId ?E (rest emptyFactory) = (7, 8)"
    by (simp add: scenario_def emptyFactory_def)
  have h4: "?X = (fst ?X, fst (snd ?X), snd (snd ?X))" by simp
  have h5: "isGood (fst ?X)" by (simp add: run_defs)
  from good_async_request_keeps_binding[OF h1 h2 h3 h4 h5] h5 show ?thesis by simp
qed

text \<open>
  Claim C9. \<open>invokeRequest\<close> itself changes the length of \<^verbatim>\<open>result.targets\<close> only by
  the resize of line 231; it hands the result to \<^verbatim>\<open>factory.create\<close> and to
  \<^verbatim>\<open>copyToResult\<close>. When these two keep the length of \<^verbatim>\<open>result.targets\<close>,
  the result of every call of \<open>invokeRequest\<close>, whatever status it returns, has as many
  targets as the request.
\<close>

theorem result_targets_sized_as_request_targets:
  assumes "\<forall>rq rs m w. length (Result.targets (fst (snd (snd (create E rq rs m w)))))
             = length (Result.targets rs)"
    and "\<forall>i rs. length (Result.targets (snd (copyToResult E i rs))) = length (Result.targets rs)"
    and "invokeRequest E S request msk result f = (ret, result', f')"
  shows "length (Result.targets result') = length (Request.targets request)"
proof -
  let ?r1 = "result\<lparr>targets := resize (length (Request.targets request)) (defaultTarget E)
              (Result.targets result)\<rparr>"
  from assms(3) obtain tid f1 r0 invs res2 w f2 where
    cr: "create E request ?r1 msk (rest f1) = (r0, invs, res2, w)" and
    lp: "invocationLoop E S request tid invs (checkSingleSession S invs r0) res2
           (f1\<lparr>rest := w\<rparr>) = (ret, result', f2)"
    by (rule invokeRequest_anatomy)
  have "length (Result.targets res2) = length (Result.targets ?r1)"
    using assms(1)[rule_format, of request ?r1 msk "rest f1"] by (simp add: cr)
  also have "\<dots> = length (Request.targets request)" by (simp add: length_resize)
  finally show ?thesis using invocationLoop_length[OF assms(2) lp] by simp
qed

theorem result_targets_sized_as_request_targets_witness:
  "length (Result.targets (fst (snd (invokeRequest
         (scenario good [(''A'', [0, 1]), (''B'', [2]), (''C'', [3])] [''A'', ''C''])
         syncSessionService \<lparr>requestHandle = 42, targets = [(), (), (), ()]\<rparr>
         [True, True, True, True] \<lparr>targets = [True]\<rparr> emptyFactory)))) = 4"
proof -
  let ?E = "scenario good [(''A'', [0, 1]), (''B'', [2]), (''C'', [3])] [''A'', ''C'']"
  let ?rq = "\<lparr>requestHandle = 42, targets = [(), (), (), ()]\<rparr> :: unit Request"
  let ?X = "invokeRequest ?E syncSessionService ?rq [True, True, True, True]
               \<lparr>targets = [True]\<rparr> emptyFactory"
  have h1: "\<forall>rq rs m w. length (Result.targets (fst (snd (snd (create ?E rq rs m w)))))
             = length (Result.targets rs)"
    by (simp add: scenario_def)
  have fl: "length (fold (\<lambda>i ts. ts[i := True]) iv ts) = length ts" for iv :: "nat list" and ts
    by (induction iv arbitrary: ts) simp_all
  have h2: "\<forall>i rs. length (Result.targets (snd (copyToResult ?E i rs)))
             = length (Result.targets rs)"
    by (simp add: scenario_def fl)
  have h3: "?X = (fst ?X, fst (snd ?X), snd (snd ?X))" by simp
  from result_targets_sized_as_request_targets[OF h1 h2 h3] show ?thesis by simp
qed

text \<open>
  Claim C10. For a synchronous service \<open>storeRequestHandleIfNeeded\<close> returns
  \<open>None\<close> and the factory untouched, and after the whole call of \<open>invokeRequest\<close>
  the transaction map is the one before the call: no \<open>Store\<close> and no \<open>Erase\<close> is
  among the calls made.
\<close>

theorem synchronous_request_leaves_transaction_map:
  assumes "\<not> asynchronous S"
    and "invokeRequest E S request msk result f = (ret, result', f')"
  shows "storeRequestHandleIfNeeded E S request f = (None, f) \<and>
         transactionMap f' = transactionMap f \<and>
         filter isStore (newCalls f f') = [] \<and> filter isErase (newCalls f f') = []"
proof -
  have st: "storeRequestHandleIfNeeded E S request f = (None, f)"
    using assms(1) by (simp add: store_cases)
  from invokeRequest_transactionMap[OF assms(2) st]
  have tm: "transactionMap f' = transactionMap f" by simp
  from invokeRequest_calls[OF assms(2) st] obtain cs where
    cs: "calls f' = calls f @ cs" "\<forall>c\<in>set cs. callUri c \<noteq> None" by auto
  have nc: "newCalls f f' = cs" using cs(1) by (rule newCalls_append)
  have "filter isStore cs = []" "filter isErase cs = []"
    using cs(2) callUri_not_store by (auto intro!: filter_none)
  with st tm nc show ?thesis by simp
qed

theorem synchronous_request_leaves_transaction_map_witness:
  "\<not> asynchronous syncSessionService \<and>
   transactionMap (snd (snd (invokeRequest
         (scenario good [(''A'', [0, 1]), (''B'', [2]), (''C'', [3])] [''A'', ''B'', ''C''])
         syncSessionService \<lparr>requestHandle = 42, targets = [(), (), (), ()]\<rparr>
         [True, True, True, True] \<lparr>targets = []\<rparr> emptyFactory))) = transactionMap emptyFactory"
proof -
  let ?E = "scenario good [(''A'', [0, 1]), (''B'', [2]), (''C'', [3])] [''A'', ''B'', ''C'']"
  let ?rq = "\<lparr>requestHandle = 42, targets = [(), (), (), ()]\<rparr> :: unit Request"
  let ?X = "invokeRequest ?E syncSessionService ?rq [True, True, True, True] \<lparr>targets = []\<rparr>
              emptyFactory"
  have h1: "\<not> asynchronous syncSessionService" by (simp add: syncSessionService_def)
  have h2: "?X = (fst ?X, fst (snd ?X), snd (snd ?X))" by simp
  from synchronous_request_leaves_transaction_map[OF h1 h2] h1 show ?thesis by simp
qed

end
